theory Spec2Isabelle
  imports Main "HOL-Library.Word" "HOL-Library.Sublist"
begin

section \<open>ts-refined: refinement predicates and the narrowing/lifting engine\<close>

subsection \<open>Strings of the host\<close>

text \<open>
  A string of the host language is a sequence of 16-bit code units. \<open>js\<close> writes
  a Basic Latin literal of the source as such a sequence.
\<close>

type_synonym jsstring = "16 word list"

definition js :: "string \<Rightarrow> jsstring" where
  "js cs = map (\<lambda>c. of_char c) cs"

subsection \<open>What a call throws\<close>

text \<open>
  A call returns a value (\<open>Inr\<close>) or throws (\<open>Inl\<close>). The engine itself throws in one
  place, \<^verbatim>\<open>throw new Error(...)\<close> in \<open>lift\<close> and \<open>lifts\<close>: that is \<open>Error\<close> with its message.
  Everything else that can leave a call is thrown by code the engine calls (a
  constructor, a test, a conversion of the host) and passes through the engine,
  which has no \<^verbatim>\<open>try\<close>: that is \<open>Foreign\<close>, with whatever was thrown.
\<close>

datatype 'e thrown = Error jsstring | Foreign 'e

text \<open>
  What the host throws when a property of \<^verbatim>\<open>null\<close> is read and when a value without a
  conversion to a string is converted. The predicates of the library run code of the
  host only: what they throw, if anything, is an error of the host.
\<close>

datatype host_error = TypeError

subsection \<open>Refinement predicates and their constructors (src/index.ts)\<close>

text \<open>
  \<^verbatim>\<open>export type Refinement<A> = { test : (a : A) => boolean; };\<close>
  \<^verbatim>\<open>export type Ctor<A> = {new() : A};\<close>

  A test returns a boolean or throws, and so does the instantiation of a
  constructor. A constructor is a class of the host: \<open>new\<close> instantiates it, and
  \<open>SourceText\<close> is the text that the host's conversion of a function to a string returns
  for it (the class as written, which holds the class name when the class is named).
\<close>

record ('a, 'e) Refinement =
  test :: "'a \<Rightarrow> 'e thrown + bool"

record ('a, 'e) Ctor =
  SourceText :: jsstring
  new :: "unit \<Rightarrow> 'e thrown + ('a, 'e) Refinement"

text \<open>\<^verbatim>\<open>export class Nil implements Refinement<any> { test = (a : any) => true; }\<close>\<close>

definition Nil_refinement :: "('a, host_error) Refinement" where
  "Nil_refinement = \<lparr>test = (\<lambda>a. Inr True)\<rparr>"

subsection \<open>The engine\<close>

text \<open>
  Beside its outcome every operation of the engine gives the list of the
  constructors on which \<^verbatim>\<open>new x().test(a)\<close> was executed, in the order of execution.
  A value of the refined type \<^verbatim>\<open>Refined<A, T>\<close> is a value of \<^verbatim>\<open>A\<close>: the tag exists for the
  type checker only.
\<close>

type_synonym ('r, 'a, 'e) outcome = "('e thrown + 'r) \<times> ('a, 'e) Ctor list"

text \<open>The expression \<^verbatim>\<open>new x().test(a)\<close>: when the instantiation throws, the test is not called.\<close>

definition instantiate_and_test :: "('a, 'e) Ctor \<Rightarrow> 'a \<Rightarrow> 'e thrown + bool" where
  "instantiate_and_test x a = (case new x () of Inl e \<Rightarrow> Inl e | Inr r \<Rightarrow> test r a)"

text \<open>
  \<^verbatim>\<open>for (const x of xs) { if (!new x().test(a)) return false; } return true;\<close>
  What \<^verbatim>\<open>new x().test(a)\<close> throws ends the loop and leaves the function.
\<close>

fun guardImpl :: "'a \<Rightarrow> ('a, 'e) Ctor list \<Rightarrow> (bool, 'a, 'e) outcome" where
  "guardImpl a [] = (Inr True, [])"
| "guardImpl a (x # xs) =
     (case instantiate_and_test x a of
        Inl e \<Rightarrow> (Inl e, [x])
      | Inr b \<Rightarrow>
          (if \<not> b then (Inr False, [x])
           else (case guardImpl a xs of (r, evaluated) \<Rightarrow> (r, x # evaluated))))"

text \<open>\<^verbatim>\<open>return guardImpl(a, ...xs);\<close>, in \<open>guard\<close> and in \<open>guards\<close>.\<close>

definition guard :: "'a \<Rightarrow> ('a, 'e) Ctor list \<Rightarrow> (bool, 'a, 'e) outcome" where
  "guard a xs = guardImpl a xs"

definition guards :: "'a \<Rightarrow> ('a, 'e) Ctor list \<Rightarrow> (bool, 'a, 'e) outcome" where
  "guards a xs = guardImpl a xs"

text \<open>
  The array in the template literal \<^verbatim>\<open>`Refinement error: ${xs}: ${a}.`\<close> is converted by
  joining the conversions of its elements with a comma; the conversion of a
  constructor is its \<open>SourceText\<close>. \<open>refinementMessage\<close> is the literal, from the texts of
  the constructors and the conversion of the value.
\<close>

fun join :: "jsstring \<Rightarrow> jsstring list \<Rightarrow> jsstring" where
  "join sep [] = []"
| "join sep [s] = s"
| "join sep (s # t # ts) = s @ sep @ join sep (t # ts)"

definition refinementMessage :: "jsstring list \<Rightarrow> jsstring \<Rightarrow> jsstring" where
  "refinementMessage texts s =
     js ''Refinement error: '' @ join (js '','') texts @ js '': '' @ s @ js ''.''"

text \<open>
  \<^verbatim>\<open>if (guardImpl(a, ...xs)) { return a; } throw new Error(`Refinement error: ${xs}: ${a}.`);\<close>,
  in \<open>lift\<close> and in \<open>lifts\<close>. The conversion of the value \<open>a\<close> to a string depends on the
  base type \<^verbatim>\<open>A\<close> and is the parameter \<open>ToString\<close> (for a string it returns the string;
  for a value without a conversion to a string it throws). The literal is evaluated
  before the \<open>Error\<close> is made: when the conversion throws, that is what leaves the call.
\<close>

definition lift ::
    "('a \<Rightarrow> 'e thrown + jsstring) \<Rightarrow> 'a \<Rightarrow> ('a, 'e) Ctor list \<Rightarrow> ('a, 'a, 'e) outcome" where
  "lift ToString a xs =
     (case guardImpl a xs of
        (Inl e, evaluated) \<Rightarrow> (Inl e, evaluated)
      | (Inr r, evaluated) \<Rightarrow>
          (if r then (Inr a, evaluated)
           else (case ToString a of
                   Inl e \<Rightarrow> (Inl e, evaluated)
                 | Inr s \<Rightarrow>
                     (Inl (Error (refinementMessage (map SourceText xs) s)), evaluated))))"

definition lifts ::
    "('a \<Rightarrow> 'e thrown + jsstring) \<Rightarrow> 'a \<Rightarrow> ('a, 'e) Ctor list \<Rightarrow> ('a, 'a, 'e) outcome" where
  "lifts ToString a xs =
     (case guardImpl a xs of
        (Inl e, evaluated) \<Rightarrow> (Inl e, evaluated)
      | (Inr r, evaluated) \<Rightarrow>
          (if r then (Inr a, evaluated)
           else (case ToString a of
                   Inl e \<Rightarrow> (Inl e, evaluated)
                 | Inr s \<Rightarrow>
                     (Inl (Error (refinementMessage (map SourceText xs) s)), evaluated))))"

text \<open>\<^verbatim>\<open>export const liftUnsafe = <A, R>(a : A) : Refined<A, R> => a as Refined<A, R>;\<close>\<close>

definition liftUnsafe :: "'a \<Rightarrow> ('a, 'a, 'e) outcome" where
  "liftUnsafe a = (Inr a, [])"

text \<open>
  The chain of the documentation of \<open>lifts\<close>:
  \<^verbatim>\<open>const a = lift(v, ...xs); const b = lifts(a, ...ys);\<close>
  When \<open>lift\<close> throws, \<open>lifts\<close> is not reached.
\<close>

definition lift_then_lifts ::
    "('a \<Rightarrow> 'e thrown + jsstring) \<Rightarrow> 'a \<Rightarrow> ('a, 'e) Ctor list \<Rightarrow> ('a, 'e) Ctor list
       \<Rightarrow> ('a, 'a, 'e) outcome" where
  "lift_then_lifts ToString v xs ys =
     (case lift ToString v xs of
        (Inl e, evaluated) \<Rightarrow> (Inl e, evaluated)
      | (Inr a, evaluated) \<Rightarrow>
          (case lifts ToString a ys of
             (b, evaluated') \<Rightarrow> (b, evaluated @ evaluated')))"

subsection \<open>The engine on a store\<close>

text \<open>
  The same functions with the store of the host made explicit. A value may be a
  reference into the store; a constructor, a test and the conversion of a value run
  code of the caller, which may read and write the store. Every function takes the
  store and gives it back as it is when the function returns or throws.
\<close>

record ('a, 'e, 'h) StoreRefinement =
  store_test :: "'a \<Rightarrow> 'h \<Rightarrow> ('e thrown + bool) \<times> 'h"

record ('a, 'e, 'h) StoreCtor =
  store_SourceText :: jsstring
  store_new :: "'h \<Rightarrow> ('e thrown + ('a, 'e, 'h) StoreRefinement) \<times> 'h"

definition store_instantiate_and_test ::
    "('a, 'e, 'h) StoreCtor \<Rightarrow> 'a \<Rightarrow> 'h \<Rightarrow> ('e thrown + bool) \<times> 'h" where
  "store_instantiate_and_test x a h =
     (case store_new x h of
        (Inl e, h') \<Rightarrow> (Inl e, h')
      | (Inr r, h') \<Rightarrow> store_test r a h')"

fun store_guardImpl ::
    "'a \<Rightarrow> ('a, 'e, 'h) StoreCtor list \<Rightarrow> 'h \<Rightarrow> ('e thrown + bool) \<times> 'h" where
  "store_guardImpl a [] h = (Inr True, h)"
| "store_guardImpl a (x # xs) h =
     (case store_instantiate_and_test x a h of
        (Inl e, h') \<Rightarrow> (Inl e, h')
      | (Inr b, h') \<Rightarrow> (if \<not> b then (Inr False, h') else store_guardImpl a xs h'))"

definition store_guard ::
    "'a \<Rightarrow> ('a, 'e, 'h) StoreCtor list \<Rightarrow> 'h \<Rightarrow> ('e thrown + bool) \<times> 'h" where
  "store_guard a xs h = store_guardImpl a xs h"


definition store_lift ::
    "('a \<Rightarrow> 'h \<Rightarrow> ('e thrown + jsstring) \<times> 'h) \<Rightarrow> 'a \<Rightarrow> ('a, 'e, 'h) StoreCtor list \<Rightarrow> 'h
       \<Rightarrow> ('e thrown + 'a) \<times> 'h" where
  "store_lift ToString a xs h =
     (case store_guardImpl a xs h of
        (Inl e, h') \<Rightarrow> (Inl e, h')
      | (Inr r, h') \<Rightarrow>
          (if r then (Inr a, h')
           else (case ToString a h' of
                   (Inl e, h'') \<Rightarrow> (Inl e, h'')
                 | (Inr s, h'') \<Rightarrow>
                     (Inl (Error (refinementMessage (map store_SourceText xs) s)), h''))))"

definition store_lifts ::
    "('a \<Rightarrow> 'h \<Rightarrow> ('e thrown + jsstring) \<times> 'h) \<Rightarrow> 'a \<Rightarrow> ('a, 'e, 'h) StoreCtor list \<Rightarrow> 'h
       \<Rightarrow> ('e thrown + 'a) \<times> 'h" where
  "store_lifts ToString a xs h =
     (case store_guardImpl a xs h of
        (Inl e, h') \<Rightarrow> (Inl e, h')
      | (Inr r, h') \<Rightarrow>
          (if r then (Inr a, h')
           else (case ToString a h' of
                   (Inl e, h'') \<Rightarrow> (Inl e, h'')
                 | (Inr s, h'') \<Rightarrow>
                     (Inl (Error (refinementMessage (map store_SourceText xs) s)), h''))))"




text \<open>
  A predicate and a constructor without effect, as predicates on the store: the
  store comes back as it went in.
\<close>

definition in_store_refinement :: "('a, 'e) Refinement \<Rightarrow> ('a, 'e, 'h) StoreRefinement" where
  "in_store_refinement r = \<lparr>store_test = (\<lambda>a h. (test r a, h))\<rparr>"

definition in_store :: "('a, 'e) Ctor \<Rightarrow> ('a, 'e, 'h) StoreCtor" where
  "in_store x =
     \<lparr>store_SourceText = SourceText x,
      store_new = (\<lambda>h. (case new x () of Inl e \<Rightarrow> Inl e | Inr r \<Rightarrow> Inr (in_store_refinement r), h))\<rparr>"

subsection \<open>Regular expressions of the host, as far as the predicates use them\<close>

text \<open>
  The character classes: \<^verbatim>\<open>\s\<close> is the white space and the line terminators of the
  language definition (the white space it lists by name and the space separators of
  Unicode), \<^verbatim>\<open>.\<close> is every code unit but a line terminator (the patterns carry no
  flag).
\<close>

definition isLineTerminator :: "16 word \<Rightarrow> bool" where
  "isLineTerminator c \<longleftrightarrow> c = 0x000A \<or> c = 0x000D \<or> c = 0x2028 \<or> c = 0x2029"

definition isWhiteSpace :: "16 word \<Rightarrow> bool" where
  "isWhiteSpace c \<longleftrightarrow>
     c = 0x0009 \<or> c = 0x000B \<or> c = 0x000C \<or> c = 0x0020 \<or> c = 0x00A0 \<or> c = 0xFEFF
     \<or> c = 0x1680 \<or> (0x2000 \<le> c \<and> c \<le> 0x200A) \<or> c = 0x202F \<or> c = 0x205F
     \<or> c = 0x3000"

datatype atom = WhiteSpaceClass | NotWhiteSpaceClass | Dot

fun atom_matches :: "atom \<Rightarrow> 16 word \<Rightarrow> bool" where
  "atom_matches WhiteSpaceClass c = (isWhiteSpace c \<or> isLineTerminator c)"
| "atom_matches NotWhiteSpaceClass c = (\<not> (isWhiteSpace c \<or> isLineTerminator c))"
| "atom_matches Dot c = (\<not> isLineTerminator c)"

text \<open>
  A pattern is a sequence of terms: the assertions \<^verbatim>\<open>^\<close> and \<^verbatim>\<open>$\<close>, one atom, a greedy
  repetition \<^verbatim>\<open>*\<close> of an atom and a lazy repetition \<^verbatim>\<open>*?\<close> of an atom.
\<close>

datatype regex_term = AssertStart | AssertEnd | Atom atom | Star atom | LazyStar atom

text \<open>
  The backtracking matcher: \<open>matcher ts i cs\<close> matches the terms \<open>ts\<close> at index \<open>i\<close> of
  the input, of which \<open>cs\<close> is the part from \<open>i\<close> on, and gives the end index of the
  first match in backtracking order. A greedy repetition tries one more atom
  first, a lazy one tries the rest of the pattern first.
\<close>

fun matcher :: "regex_term list \<Rightarrow> nat \<Rightarrow> jsstring \<Rightarrow> nat option" where
  "matcher [] i cs = Some i"
| "matcher (AssertStart # ts) i cs = (if i = 0 then matcher ts i cs else None)"
| "matcher (AssertEnd # ts) i cs = (if cs = [] then matcher ts i cs else None)"
| "matcher (Atom a # ts) i [] = None"
| "matcher (Atom a # ts) i (c # cs) =
     (if atom_matches a c then matcher ts (Suc i) cs else None)"
| "matcher (Star a # ts) i [] = matcher ts i []"
| "matcher (Star a # ts) i (c # cs) =
     (if atom_matches a c
      then (case matcher (Star a # ts) (Suc i) cs of
              Some e \<Rightarrow> Some e
            | None \<Rightarrow> matcher ts i (c # cs))
      else matcher ts i (c # cs))"
| "matcher (LazyStar a # ts) i [] = matcher ts i []"
| "matcher (LazyStar a # ts) i (c # cs) =
     (case matcher ts i (c # cs) of
        Some e \<Rightarrow> Some e
      | None \<Rightarrow>
          (if atom_matches a c then matcher (LazyStar a # ts) (Suc i) cs else None))"

text \<open>
  \<^verbatim>\<open>RegExp.prototype.test\<close> of a pattern without flags: the matcher is tried at the
  start indices 0, 1, ... up to the length of the input, until it succeeds.
\<close>

fun exec_from :: "regex_term list \<Rightarrow> nat \<Rightarrow> jsstring \<Rightarrow> bool" where
  "exec_from ts i [] = (matcher ts i [] \<noteq> None)"
| "exec_from ts i (c # cs) =
     (if matcher ts i (c # cs) \<noteq> None then True else exec_from ts (Suc i) cs)"

definition regex_test :: "regex_term list \<Rightarrow> jsstring \<Rightarrow> bool" where
  "regex_test ts s = exec_from ts 0 s"

subsection \<open>Case conversion of the host\<close>

text \<open>
  \<^verbatim>\<open>toLowerCase\<close> and \<^verbatim>\<open>toUpperCase\<close> read the string as code points (a leading surrogate
  followed by a trailing surrogate is one code point, every other code unit is one
  by itself), map every code point by the case mapping of the Unicode tables, and
  write the result back as code units. The tables are not part of the repository:
  a \<open>casing\<close> is the parameter that stands for one of them. It gives the mapping of a
  code point between the code points that precede and follow it, as the tables have
  mappings that depend on the context and mappings to several code points.
\<close>

type_synonym codepoint = nat

type_synonym casing = "codepoint list \<Rightarrow> codepoint \<Rightarrow> codepoint list \<Rightarrow> codepoint list"

definition isLeadingSurrogate :: "16 word \<Rightarrow> bool" where
  "isLeadingSurrogate c \<longleftrightarrow> 0xD800 \<le> unat c \<and> unat c \<le> 0xDBFF"

definition isTrailingSurrogate :: "16 word \<Rightarrow> bool" where
  "isTrailingSurrogate c \<longleftrightarrow> 0xDC00 \<le> unat c \<and> unat c \<le> 0xDFFF"

fun StringToCodePoints :: "jsstring \<Rightarrow> codepoint list" where
  "StringToCodePoints [] = []"
| "StringToCodePoints [c] = [unat c]"
| "StringToCodePoints (c # d # cs) =
     (if isLeadingSurrogate c \<and> isTrailingSurrogate d
      then (0x10000 + (unat c - 0xD800) * 0x400 + (unat d - 0xDC00)) # StringToCodePoints cs
      else unat c # StringToCodePoints (d # cs))"

definition UTF16EncodeCodePoint :: "codepoint \<Rightarrow> jsstring" where
  "UTF16EncodeCodePoint cp =
     (if cp \<le> 0xFFFF then [of_nat cp]
      else [of_nat ((cp - 0x10000) div 0x400 + 0xD800),
            of_nat ((cp - 0x10000) mod 0x400 + 0xDC00)])"

definition CodePointsToString :: "codepoint list \<Rightarrow> jsstring" where
  "CodePointsToString cps = concat (map UTF16EncodeCodePoint cps)"

fun convertCase :: "casing \<Rightarrow> codepoint list \<Rightarrow> codepoint list \<Rightarrow> codepoint list" where
  "convertCase m prev [] = []"
| "convertCase m prev (c # rest) = m prev c rest @ convertCase m (prev @ [c]) rest"

definition toLowerCase :: "casing \<Rightarrow> jsstring \<Rightarrow> jsstring" where
  "toLowerCase lower s = CodePointsToString (convertCase lower [] (StringToCodePoints s))"

definition toUpperCase :: "casing \<Rightarrow> jsstring \<Rightarrow> jsstring" where
  "toUpperCase upper s = CodePointsToString (convertCase upper [] (StringToCodePoints s))"

text \<open>
  What the Unicode tables say on the Basic Latin block (code points below 128):
  the 26 letters \<open>A\<close> to \<open>Z\<close> and \<open>a\<close> to \<open>z\<close> map to each other, in every context, and
  every other code point of the block maps to itself.
\<close>

definition basicLatinLower :: "codepoint \<Rightarrow> codepoint" where
  "basicLatinLower c = (if 0x41 \<le> c \<and> c \<le> 0x5A then c + 0x20 else c)"

definition basicLatinUpper :: "codepoint \<Rightarrow> codepoint" where
  "basicLatinUpper c = (if 0x61 \<le> c \<and> c \<le> 0x7A then c - 0x20 else c)"

definition lowerOnBasicLatin :: "casing \<Rightarrow> bool" where
  "lowerOnBasicLatin lower \<longleftrightarrow>
     (\<forall>prev c rest. c < 0x80 \<longrightarrow> lower prev c rest = [basicLatinLower c])"

definition upperOnBasicLatin :: "casing \<Rightarrow> bool" where
  "upperOnBasicLatin upper \<longleftrightarrow>
     (\<forall>prev c rest. c < 0x80 \<longrightarrow> upper prev c rest = [basicLatinUpper c])"

text \<open>A code point without case distinction: both tables map it to itself, wherever it stands.\<close>

definition caseless :: "casing \<Rightarrow> casing \<Rightarrow> codepoint \<Rightarrow> bool" where
  "caseless lower upper c \<longleftrightarrow>
     (\<forall>prev rest. lower prev c rest = [c] \<and> upper prev c rest = [c])"

text \<open>The tables cut down to the Basic Latin block, every other code point left as it is.\<close>

definition basicLatinLowerCasing :: casing where
  "basicLatinLowerCasing prev c rest = [basicLatinLower c]"

definition basicLatinUpperCasing :: casing where
  "basicLatinUpperCasing prev c rest = [basicLatinUpper c]"

subsection \<open>The example predicates on strings\<close>

text \<open>\<^verbatim>\<open>class NotEmpty: test = (s : string) => s !== "";\<close>\<close>

definition NotEmpty :: "(jsstring, host_error) Refinement" where
  "NotEmpty = \<lparr>test = (\<lambda>s. Inr (s \<noteq> []))\<rparr>"

text \<open>\<^verbatim>\<open>class NotBlank: test = (s : string) => !/^\s*$/.test(s);\<close>\<close>

definition NotBlank :: "(jsstring, host_error) Refinement" where
  "NotBlank =
     \<lparr>test = (\<lambda>s. Inr (\<not> regex_test [AssertStart, Star WhiteSpaceClass, AssertEnd] s))\<rparr>"

text \<open>\<^verbatim>\<open>class Trimmed: test = (s : string) => /^[^\s].*?[^\s]$/.test(s);\<close>\<close>

definition Trimmed :: "(jsstring, host_error) Refinement" where
  "Trimmed =
     \<lparr>test = (\<lambda>s. Inr (regex_test
        [AssertStart, Atom NotWhiteSpaceClass, LazyStar Dot, Atom NotWhiteSpaceClass, AssertEnd]
        s))\<rparr>"

text \<open>\<^verbatim>\<open>class LowerCase: test = (s : string) => s === s.toLowerCase();\<close>\<close>

definition LowerCase :: "casing \<Rightarrow> (jsstring, host_error) Refinement" where
  "LowerCase lower = \<lparr>test = (\<lambda>s. Inr (s = toLowerCase lower s))\<rparr>"

text \<open>\<^verbatim>\<open>class UpperCase: test = (s : string) => s === s.toUpperCase();\<close>\<close>

definition UpperCase :: "casing \<Rightarrow> (jsstring, host_error) Refinement" where
  "UpperCase upper = \<lparr>test = (\<lambda>s. Inr (s = toUpperCase upper s))\<rparr>"

text \<open>
  The example classes as constructors. The text of a compiled class depends on the
  target of the compiler; here it is cut down to the keyword and the class name, for
  the runs in which the text plays no part. The instantiation of these classes does
  not throw.
\<close>

definition named_class :: "string \<Rightarrow> ('a, 'e) Refinement \<Rightarrow> ('a, 'e) Ctor" where
  "named_class n r = \<lparr>SourceText = js (''class '' @ n), new = (\<lambda>_. Inr r)\<rparr>"

subsection \<open>Values beside strings\<close>

text \<open>
  The type \<^verbatim>\<open>string\<close> holds \<^verbatim>\<open>null\<close> when the compiler does not check for it. The test of
  \<open>LowerCase\<close> on such a value: \<^verbatim>\<open>s.toLowerCase()\<close> throws on \<^verbatim>\<open>null\<close>.
\<close>

definition LowerCase_nullable :: "casing \<Rightarrow> (jsstring option, host_error) Refinement" where
  "LowerCase_nullable lower =
     \<lparr>test = (\<lambda>a. case a of
                       None \<Rightarrow> Inl (Foreign TypeError)
                     | Some s \<Rightarrow> Inr (s = toLowerCase lower s))\<rparr>"




subsection \<open>Predicates of a caller on a store\<close>

text \<open>
  A store of strings by address; a value is an address. \<open>HoldsNotEmpty\<close> reads the
  string at the address, \<open>Eraser\<close> writes the empty string there and accepts, and
  \<open>ToString_at\<close> converts an address to the string it holds.
\<close>

type_synonym string_store = "nat \<Rightarrow> jsstring"


definition Eraser :: "(nat, 'e, string_store) StoreCtor" where
  "Eraser =
     \<lparr>store_SourceText = js ''class Eraser'',
      store_new = (\<lambda>h. (Inr \<lparr>store_test = (\<lambda>a k. (Inr True, k(a := [])))\<rparr>, h))\<rparr>"


section \<open>Properties of the engine\<close>

lemma guardImpl_true_iff:
  "(fst (guardImpl a xs) = Inr True) = (\<forall>x \<in> set xs. instantiate_and_test x a = Inr True)"
  by (induction xs) (auto split: prod.splits sum.splits)

lemma guardImpl_Cons_true:
  "instantiate_and_test x a = Inr True \<Longrightarrow> fst (guardImpl a (x # xs)) = fst (guardImpl a xs)"
  by (cases "guardImpl a xs") simp

lemma guardImpl_false_iff:
  "(fst (guardImpl a xs) = Inr False) =
     (\<exists>i < length xs. instantiate_and_test (xs ! i) a = Inr False
        \<and> (\<forall>x \<in> set (take i xs). instantiate_and_test x a = Inr True))"
proof (induction xs)
  case Nil
  then show ?case by simp
next
  case (Cons x xs)
  show ?case
  proof (cases "instantiate_and_test x a")
    case (Inl e)
    have "\<not> (\<exists>i < length (x # xs). instantiate_and_test ((x # xs) ! i) a = Inr False
        \<and> (\<forall>y \<in> set (take i (x # xs)). instantiate_and_test y a = Inr True))"
    proof
      assume "\<exists>i < length (x # xs). instantiate_and_test ((x # xs) ! i) a = Inr False
        \<and> (\<forall>y \<in> set (take i (x # xs)). instantiate_and_test y a = Inr True)"
      then obtain i where i: "instantiate_and_test ((x # xs) ! i) a = Inr False"
        "\<forall>y \<in> set (take i (x # xs)). instantiate_and_test y a = Inr True"
        by blast
      show False
        using i Inl by (cases i) simp_all
    qed
    then show ?thesis
      using Inl by simp
  next
    case (Inr b)
    show ?thesis
    proof (cases b)
      case False
      have "0 < length (x # xs) \<and> instantiate_and_test ((x # xs) ! 0) a = Inr False
          \<and> (\<forall>y \<in> set (take 0 (x # xs)). instantiate_and_test y a = Inr True)"
        using Inr False by simp
      then have "\<exists>i < length (x # xs). instantiate_and_test ((x # xs) ! i) a = Inr False
          \<and> (\<forall>y \<in> set (take i (x # xs)). instantiate_and_test y a = Inr True)"
        by blast
      then show ?thesis
        using Inr False by simp
    next
      case True
      have "(\<exists>i < length (x # xs). instantiate_and_test ((x # xs) ! i) a = Inr False
          \<and> (\<forall>y \<in> set (take i (x # xs)). instantiate_and_test y a = Inr True))
        = (\<exists>i < length xs. instantiate_and_test (xs ! i) a = Inr False
          \<and> (\<forall>y \<in> set (take i xs). instantiate_and_test y a = Inr True))"
        (is "?L = ?R")
      proof
        assume ?L
        then obtain i where i: "i < length (x # xs)"
          "instantiate_and_test ((x # xs) ! i) a = Inr False"
          "\<forall>y \<in> set (take i (x # xs)). instantiate_and_test y a = Inr True"
          by blast
        then obtain j where j: "i = Suc j"
          using Inr True by (cases i) simp_all
        then show ?R
          using i by auto
      next
        assume ?R
        then obtain j where j: "j < length xs" "instantiate_and_test (xs ! j) a = Inr False"
          "\<forall>y \<in> set (take j xs). instantiate_and_test y a = Inr True"
          by blast
        then have "Suc j < length (x # xs)
          \<and> instantiate_and_test ((x # xs) ! Suc j) a = Inr False
          \<and> (\<forall>y \<in> set (take (Suc j) (x # xs)). instantiate_and_test y a = Inr True)"
          using Inr True by simp
        then show ?L by blast
      qed
      moreover have "instantiate_and_test x a = Inr True"
        using Inr True by simp
      then have "fst (guardImpl a (x # xs)) = fst (guardImpl a xs)"
        by (rule guardImpl_Cons_true)
      ultimately show ?thesis
        using Cons.IH by simp
    qed
  qed
qed

lemma guardImpl_false_at:
  assumes "i < length P"
    and "instantiate_and_test (P ! i) v = Inr False"
    and "\<forall>x \<in> set (take i P). \<not> isl (instantiate_and_test x v)"
  shows "fst (guardImpl v P) = Inr False"
proof -
  have "\<exists>j < length P. instantiate_and_test (P ! j) v = Inr False
          \<and> (\<forall>x \<in> set (take j P). instantiate_and_test x v = Inr True)"
    using assms
  proof (induction P arbitrary: i)
    case Nil
    then show ?case by simp
  next
    case (Cons x xs)
    show ?case
    proof (cases i)
      case 0
      then have "0 < length (x # xs) \<and> instantiate_and_test ((x # xs) ! 0) v = Inr False
          \<and> (\<forall>y \<in> set (take 0 (x # xs)). instantiate_and_test y v = Inr True)"
        using Cons.prems by simp
      then show ?thesis by blast
    next
      case (Suc k)
      then have "\<not> isl (instantiate_and_test x v)"
        using Cons.prems by simp
      then obtain b where b: "instantiate_and_test x v = Inr b"
        by (cases "instantiate_and_test x v") simp_all
      show ?thesis
      proof (cases b)
        case False
        then have "0 < length (x # xs) \<and> instantiate_and_test ((x # xs) ! 0) v = Inr False
            \<and> (\<forall>y \<in> set (take 0 (x # xs)). instantiate_and_test y v = Inr True)"
          using b by simp
        then show ?thesis by blast
      next
        case True
        have "\<exists>j < length xs. instantiate_and_test (xs ! j) v = Inr False
            \<and> (\<forall>y \<in> set (take j xs). instantiate_and_test y v = Inr True)"
          using Cons.IH [of k] Cons.prems Suc by simp
        then obtain j where "j < length xs" "instantiate_and_test (xs ! j) v = Inr False"
          "\<forall>y \<in> set (take j xs). instantiate_and_test y v = Inr True"
          by blast
        then have "Suc j < length (x # xs)
            \<and> instantiate_and_test ((x # xs) ! Suc j) v = Inr False
            \<and> (\<forall>y \<in> set (take (Suc j) (x # xs)). instantiate_and_test y v = Inr True)"
          using b True by simp
        then show ?thesis by blast
      qed
    qed
  qed
  then show ?thesis
    by (simp add: guardImpl_false_iff)
qed

lemma guardImpl_throws:
  "fst (guardImpl a xs) = Inl e \<Longrightarrow> \<exists>x \<in> set xs. instantiate_and_test x a = Inl e"
  by (induction xs) (auto split: prod.splits sum.splits if_splits)

lemma guardImpl_returns:
  "\<forall>x \<in> set xs. \<exists>b. instantiate_and_test x a = Inr b \<Longrightarrow> \<exists>b. fst (guardImpl a xs) = Inr b"
  using guardImpl_throws [of a xs] by (cases "fst (guardImpl a xs)") fastforce+

lemma guardImpl_evaluated_prefix: "prefix (snd (guardImpl a xs)) xs"
  by (induction xs) (auto split: prod.splits sum.splits)

lemma guardImpl_suffix_irrelevant:
  "instantiate_and_test x a \<noteq> Inr True \<Longrightarrow> guardImpl a (ps @ x # ys) = guardImpl a (ps @ [x])"
  by (induction ps) (auto split: prod.splits sum.splits)

lemma guardImpl_append:
  "guardImpl a (xs @ ys) =
     (if fst (guardImpl a xs) = Inr True
      then (fst (guardImpl a ys), snd (guardImpl a xs) @ snd (guardImpl a ys))
      else guardImpl a xs)"
  by (induction xs) (auto split: prod.splits sum.splits)

lemma lift_evaluated: "snd (lift ToString a xs) = snd (guardImpl a xs)"
  by (cases "guardImpl a xs") (simp add: lift_def split: sum.splits)

lemma lifts_evaluated: "snd (lifts ToString a xs) = snd (guardImpl a xs)"
  by (cases "guardImpl a xs") (simp add: lifts_def split: sum.splits)

lemma lift_passes: "fst (guardImpl a xs) = Inr True \<Longrightarrow> fst (lift ToString a xs) = Inr a"
  by (cases "guardImpl a xs") (simp add: lift_def)

lemma lifts_passes: "fst (guardImpl a xs) = Inr True \<Longrightarrow> fst (lifts ToString a xs) = Inr a"
  by (cases "guardImpl a xs") (simp add: lifts_def)

lemma lift_throws: "fst (guardImpl a xs) \<noteq> Inr True \<Longrightarrow> isl (fst (lift ToString a xs))"
  by (cases "guardImpl a xs") (auto simp: lift_def split: sum.splits)

lemma lifts_throws: "fst (guardImpl a xs) \<noteq> Inr True \<Longrightarrow> isl (fst (lifts ToString a xs))"
  by (cases "guardImpl a xs") (auto simp: lifts_def split: sum.splits)



text \<open>
  Claim C1. For every value \<open>v\<close> and every list \<open>P\<close> of predicate constructors,
  \<open>guardImpl\<close> returns true if and only if every predicate of \<open>P\<close> returns true
  when tested against \<open>v\<close>; for the empty list it returns true.
\<close>

theorem guardImpl_true_iff_every_predicate_passes:
  "(fst (guardImpl v P) = Inr True) = (\<forall>x \<in> set P. instantiate_and_test x v = Inr True)
   \<and> fst (guardImpl v []) = Inr True"
  by (simp add: guardImpl_true_iff)

theorem guardImpl_true_iff_every_predicate_passes_witness:
  "instantiate_and_test (named_class ''NotEmpty'' NotEmpty)
       (js ''x'') = Inr True
   \<and> instantiate_and_test (named_class ''Nil'' Nil_refinement)
       (js ''x'') = Inr True
   \<and> instantiate_and_test (named_class ''NotEmpty'' NotEmpty)
       (js []) = Inr False
   \<and> fst (guardImpl (js ''x'')
        [named_class ''NotEmpty'' NotEmpty,
         named_class ''Nil'' Nil_refinement]) = Inr True
   \<and> fst (guardImpl (js [])
        [named_class ''NotEmpty'' NotEmpty,
         named_class ''Nil'' Nil_refinement]) = Inr False"
  using guardImpl_true_iff_every_predicate_passes
          [of "js ''x''"
              "[named_class ''NotEmpty'' NotEmpty,
                named_class ''Nil'' Nil_refinement]"]
        guardImpl_true_iff_every_predicate_passes
          [of "js []"
              "[named_class ''NotEmpty'' NotEmpty,
                named_class ''Nil'' Nil_refinement]"]
  by (simp add: instantiate_and_test_def named_class_def NotEmpty_def Nil_refinement_def js_def)

text \<open>
  Claim C2. The claim: \<open>guard\<close> returns true exactly when \<open>lift\<close> does not throw, and
  \<open>guard\<close> and \<open>guards\<close> never raise an exception, for any input. The second half fails:
  the engine has no \<^verbatim>\<open>try\<close>, so what the test of a predicate throws leaves \<open>guard\<close>. The
  code at \<^verbatim>\<open>guard(null, LowerCase)\<close>, as at \<^verbatim>\<open>guards(null, LowerCase)\<close>: the test reads a
  property of \<^verbatim>\<open>null\<close>, and the call throws.
\<close>

theorem guard_throws_on_null_counterexample:
  "fst (guard None [named_class ''LowerCase'' (LowerCase_nullable basicLatinLowerCasing)])
     = Inl (Foreign TypeError)
   \<and> fst (guards None [named_class ''LowerCase'' (LowerCase_nullable basicLatinLowerCasing)])
     = Inl (Foreign TypeError)"
  by (simp add: guard_def guards_def instantiate_and_test_def named_class_def
        LowerCase_nullable_def)

text \<open>
  Claim C2, as amended. For every value \<open>v\<close> and predicate list \<open>P\<close>, \<open>guard\<close> returns true
  exactly when \<open>lift\<close> returns (and \<open>guards\<close> exactly when \<open>lifts\<close> does). \<open>guard\<close> and \<open>guards\<close>
  raise no error of their own: what they throw was thrown by the constructor or the
  test of a predicate of \<open>P\<close>, and when every predicate of \<open>P\<close> returns a boolean for \<open>v\<close>
  they return a boolean, which is false exactly when some predicate returns false.
\<close>

theorem guard_agrees_with_lift_and_throws_only_what_a_predicate_throws:
  "(fst (guard v P) = Inr True) = (\<exists>r. fst (lift ToString v P) = Inr r)
   \<and> (fst (guards v P) = Inr True) = (\<exists>r. fst (lifts ToString v P) = Inr r)
   \<and> (fst (guard v P) = Inl e \<longrightarrow> (\<exists>x \<in> set P. instantiate_and_test x v = Inl e))
   \<and> (fst (guards v P) = Inl e \<longrightarrow> (\<exists>x \<in> set P. instantiate_and_test x v = Inl e))
   \<and> ((\<forall>x \<in> set P. \<not> isl (instantiate_and_test x v)) \<longrightarrow>
        (\<exists>b. fst (guard v P) = Inr b) \<and> (\<exists>b. fst (guards v P) = Inr b)
        \<and> (fst (guard v P) = Inr False)
            = (\<exists>x \<in> set P. instantiate_and_test x v = Inr False)
        \<and> (fst (guards v P) = Inr False)
            = (\<exists>x \<in> set P. instantiate_and_test x v = Inr False))"
proof -
  have agree: "(fst (guardImpl v P) = Inr True) = (\<exists>r. fst (lift ToString v P) = Inr r)"
  proof (cases "fst (guardImpl v P) = Inr True")
    case True
    then show ?thesis by (simp add: lift_passes)
  next
    case False
    then have "isl (fst (lift ToString v P))" by (rule lift_throws)
    then show ?thesis using False by auto
  qed
  have agrees: "(fst (guardImpl v P) = Inr True) = (\<exists>r. fst (lifts ToString v P) = Inr r)"
  proof (cases "fst (guardImpl v P) = Inr True")
    case True
    then show ?thesis by (simp add: lifts_passes)
  next
    case False
    then have "isl (fst (lifts ToString v P))" by (rule lifts_throws)
    then show ?thesis using False by auto
  qed
  have throws: "fst (guardImpl v P) = Inl e \<longrightarrow> (\<exists>x \<in> set P. instantiate_and_test x v = Inl e)"
    using guardImpl_throws [of v P e] by blast
  have returns: "(\<exists>b. fst (guardImpl v P) = Inr b)
      \<and> (fst (guardImpl v P) = Inr False) = (\<exists>x \<in> set P. instantiate_and_test x v = Inr False)"
    if "\<forall>x \<in> set P. \<not> isl (instantiate_and_test x v)"
  proof -
    have all: "\<exists>b. instantiate_and_test x v = Inr b" if "x \<in> set P" for x
    proof -
      have "\<not> isl (instantiate_and_test x v)"
        using \<open>\<forall>x \<in> set P. \<not> isl (instantiate_and_test x v)\<close> that by simp
      then show ?thesis
        by (cases "instantiate_and_test x v") simp_all
    qed
    then obtain b where b: "fst (guardImpl v P) = Inr b"
      using guardImpl_returns [of P v] by blast
    have "(b = False) = (\<not> (\<forall>x \<in> set P. instantiate_and_test x v = Inr True))"
      using b guardImpl_true_iff [of v P] by auto
    also have "\<dots> = (\<exists>x \<in> set P. instantiate_and_test x v = Inr False)"
    proof
      assume "\<not> (\<forall>x \<in> set P. instantiate_and_test x v = Inr True)"
      then obtain x where x: "x \<in> set P" "instantiate_and_test x v \<noteq> Inr True"
        by blast
      from all [OF x(1)] obtain c where "instantiate_and_test x v = Inr c"
        by blast
      then have "instantiate_and_test x v = Inr False"
        using x(2) by (cases c) simp_all
      then show "\<exists>x \<in> set P. instantiate_and_test x v = Inr False"
        using x(1) by blast
    next
      assume "\<exists>x \<in> set P. instantiate_and_test x v = Inr False"
      then obtain x where "x \<in> set P" "instantiate_and_test x v = Inr False"
        by blast
      then have "x \<in> set P \<and> instantiate_and_test x v \<noteq> Inr True"
        by simp
      then show "\<not> (\<forall>x \<in> set P. instantiate_and_test x v = Inr True)"
        by blast
    qed
    finally show ?thesis
      using b by simp
  qed
  show ?thesis
    using agree agrees throws returns by (simp add: guard_def guards_def)
qed

theorem guard_agrees_with_lift_and_throws_only_what_a_predicate_throws_witness:
  "instantiate_and_test (named_class ''NotBlank'' NotBlank)
       (js ''a '') = Inr True
   \<and> instantiate_and_test (named_class ''Trimmed'' Trimmed)
       (js ''a '') = Inr False
   \<and> fst (guard (js ''a '')
        [named_class ''NotBlank'' NotBlank,
         named_class ''Trimmed'' Trimmed]) = Inr False
   \<and> fst (guards (js ''a '')
        [named_class ''NotBlank'' NotBlank,
         named_class ''Trimmed'' Trimmed]) = Inr False
   \<and> \<not> (\<exists>r. fst (lift Inr (js ''a '')
        [named_class ''NotBlank'' NotBlank,
         named_class ''Trimmed'' Trimmed]) = Inr r)"
  using guard_agrees_with_lift_and_throws_only_what_a_predicate_throws
          [of "js ''a ''"
              "[named_class ''NotBlank'' NotBlank,
                named_class ''Trimmed'' Trimmed]"
              Inr]
  by (simp add: guard_def guards_def instantiate_and_test_def named_class_def NotBlank_def
        Trimmed_def regex_test_def js_def isWhiteSpace_def isLineTerminator_def)






text \<open>
  Claim C5. The check short-circuits: when the predicate at position \<open>i\<close> of \<open>P\<close> returns
  false for \<open>v\<close>, the predicates that were instantiated and evaluated are among the
  first \<open>i + 1\<close> of \<open>P\<close>, in their order, and the whole run is the run on these first
  \<open>i + 1\<close> predicates: it does not return true (it returns false when no predicate
  before position \<open>i\<close> throws), and nothing after position \<open>i\<close> takes part. The same holds
  for the runs of \<open>guard\<close> and \<open>lift\<close>.
\<close>

theorem guardImpl_short_circuits:
  assumes "i < length P" and "instantiate_and_test (P ! i) v = Inr False"
  shows "prefix (snd (guardImpl v P)) (take (Suc i) P)
     \<and> guardImpl v P = guardImpl v (take (Suc i) P)
     \<and> fst (guardImpl v P) \<noteq> Inr True
     \<and> ((\<forall>x \<in> set (take i P). \<not> isl (instantiate_and_test x v)) \<longrightarrow>
          fst (guardImpl v P) = Inr False)
     \<and> prefix (snd (guard v P)) (take (Suc i) P)
     \<and> prefix (snd (lift ToString v P)) (take (Suc i) P)"
proof -
  have whole: "P = take i P @ P ! i # drop (Suc i) P"
    using assms(1) by (simp add: id_take_nth_drop)
  have part: "take (Suc i) P = take i P @ [P ! i]"
    using assms(1) by (simp add: take_Suc_conv_app_nth)
  have "instantiate_and_test (P ! i) v \<noteq> Inr True"
    using assms(2) by simp
  then have "guardImpl v (take i P @ P ! i # drop (Suc i) P) = guardImpl v (take i P @ [P ! i])"
    by (rule guardImpl_suffix_irrelevant)
  then have same: "guardImpl v P = guardImpl v (take (Suc i) P)"
    using whole part by simp
  have "prefix (snd (guardImpl v (take (Suc i) P))) (take (Suc i) P)"
    by (rule guardImpl_evaluated_prefix)
  then have pre: "prefix (snd (guardImpl v P)) (take (Suc i) P)"
    using same by simp
  have "P ! i \<in> set P"
    using assms(1) by simp
  then have "\<not> (\<forall>x \<in> set P. instantiate_and_test x v = Inr True)"
    using assms(2) by force
  then have not_true: "fst (guardImpl v P) \<noteq> Inr True"
    by (simp add: guardImpl_true_iff)
  have false: "fst (guardImpl v P) = Inr False"
    if "\<forall>x \<in> set (take i P). \<not> isl (instantiate_and_test x v)"
    using assms that by (rule guardImpl_false_at)
  show ?thesis
    using same pre not_true false by (simp add: guard_def lift_evaluated)
qed

theorem guardImpl_short_circuits_witness:
  "(1::nat) < length [named_class ''NotEmpty'' NotEmpty,
                      named_class ''NotBlank'' NotBlank, named_class ''Trimmed'' Trimmed]
   \<and> instantiate_and_test
        ([named_class ''NotEmpty'' NotEmpty,
          named_class ''NotBlank'' NotBlank, named_class ''Trimmed'' Trimmed] ! 1) (js '' '')
       = Inr False
   \<and> guardImpl (js '' '')
        [named_class ''NotEmpty'' NotEmpty,
         named_class ''NotBlank'' NotBlank, named_class ''Trimmed'' Trimmed]
       = (Inr False, [named_class ''NotEmpty'' NotEmpty, named_class ''NotBlank'' NotBlank])
   \<and> prefix (snd (guardImpl (js '' '')
        [named_class ''NotEmpty'' NotEmpty,
         named_class ''NotBlank'' NotBlank, named_class ''Trimmed'' Trimmed]))
       (take (Suc 1) [named_class ''NotEmpty'' NotEmpty, named_class ''NotBlank'' NotBlank,
                      named_class ''Trimmed'' Trimmed])"
  using guardImpl_short_circuits
          [of 1 "[named_class ''NotEmpty'' NotEmpty,
                  named_class ''NotBlank'' NotBlank, named_class ''Trimmed'' Trimmed]"
              "js '' ''" Inr]
  by (simp add: instantiate_and_test_def named_class_def NotEmpty_def NotBlank_def
        regex_test_def js_def isWhiteSpace_def isLineTerminator_def)



text \<open>
  The message of the error names the predicates of the call that threw: when \<open>A\<close>
  passes and \<open>B\<close> fails, the chain throws from \<open>lifts\<close> with \<open>B\<close> alone in the message, and
  the direct call with \<open>A\<close> and \<open>B\<close>.
\<close>

lemma lift_then_lifts_message:
  assumes "instantiate_and_test A v = Inr True" and "instantiate_and_test B v = Inr False"
    and "ToString v = Inr s"
  shows "fst (lift_then_lifts ToString v [A] [B])
           = Inl (Error (refinementMessage [SourceText B] s))"
    and "fst (lift ToString v [A, B]) = Inl (Error (refinementMessage [SourceText A, SourceText B] s))"
  using assms by (simp_all add: lift_then_lifts_def lift_def lifts_def)

text \<open>
  Claim C7. For every input value \<open>liftUnsafe\<close> returns the value unchanged: it does not
  throw, and it instantiates and evaluates no predicate.
\<close>

theorem liftUnsafe_returns_input_unchecked:
  "fst (liftUnsafe v) = Inr v \<and> snd (liftUnsafe v) = []"
  by (simp add: liftUnsafe_def)

subsection \<open>The engine and the store\<close>






text \<open>
  With predicates without effect the engine on a store is the engine above, and the
  store comes back as it went in.
\<close>

lemma store_guardImpl_in_store:
  "store_guardImpl a (map in_store xs) h = (fst (guardImpl a xs), h)"
proof (induction xs)
  case Nil
  then show ?case by simp
next
  case (Cons x xs)
  have "store_instantiate_and_test (in_store x) a h = (instantiate_and_test x a, h)"
    by (simp add: store_instantiate_and_test_def in_store_def in_store_refinement_def
          instantiate_and_test_def split: sum.splits)
  then show ?case
    using Cons.IH by (cases "guardImpl a xs") (simp split: sum.splits)
qed

lemma store_lift_in_store:
  "store_lift (\<lambda>a k. (ToString a, k)) a (map in_store xs) h = (fst (lift ToString a xs), h)"
  "store_lifts (\<lambda>a k. (ToString a, k)) a (map in_store xs) h = (fst (lifts ToString a xs), h)"
  by (cases "guardImpl a xs";
      simp add: store_lift_def store_lifts_def lift_def lifts_def store_guardImpl_in_store
        in_store_def comp_def split: sum.splits)+

text \<open>The store shows a write: what \<open>Eraser\<close> writes is in the store that \<open>guard\<close> gives back.\<close>

lemma store_guard_shows_a_write:
  "snd (store_guard 0 [Eraser] (\<lambda>_. js ''x'')) 0 = [] \<and> (\<lambda>_. js ''x'') (0::nat) \<noteq> []"
  by (simp add: store_guard_def store_instantiate_and_test_def Eraser_def js_def)




section \<open>Properties of the example predicates\<close>

subsection \<open>What the two patterns accept\<close>

lemma exec_from_AssertStart_later: "0 < i \<Longrightarrow> exec_from (AssertStart # ts) i cs = False"
  by (induction cs arbitrary: i) auto

lemma regex_test_anchored: "regex_test (AssertStart # ts) s = (matcher ts 0 s \<noteq> None)"
  by (cases s) (simp_all add: regex_test_def exec_from_AssertStart_later)

lemma matcher_star_to_end:
  "(matcher [Star a, AssertEnd] i cs \<noteq> None) = (\<forall>c \<in> set cs. atom_matches a c)"
proof (induction cs arbitrary: i)
  case Nil
  then show ?case by simp
next
  case (Cons c cs)
  show ?case
  proof (cases "atom_matches a c")
    case True
    then have "matcher [Star a, AssertEnd] i (c # cs) = matcher [Star a, AssertEnd] (Suc i) cs"
      by (simp split: option.splits)
    then show ?thesis
      using True Cons.IH [of "Suc i"] by simp
  next
    case False
    then show ?thesis by simp
  qed
qed

lemma matcher_lazy_then_last:
  "(matcher [LazyStar a, Atom b, AssertEnd] i cs \<noteq> None) =
     (cs \<noteq> [] \<and> (\<forall>d \<in> set (butlast cs). atom_matches a d) \<and> atom_matches b (last cs))"
proof (induction cs arbitrary: i)
  case Nil
  then show ?case by simp
next
  case (Cons c cs)
  show ?case
  proof (cases "cs = []")
    case True
    then show ?thesis by simp
  next
    case False
    then have "matcher [Atom b, AssertEnd] i (c # cs) = None"
      by simp
    then show ?thesis
      using False Cons.IH [of "Suc i"] by simp
  qed
qed

text \<open>\<open>NotBlank\<close> accepts the strings that hold a code unit outside \<^verbatim>\<open>\s\<close>.\<close>

lemma NotBlank_test_iff:
  "test NotBlank s = Inr (\<exists>c \<in> set s. \<not> (isWhiteSpace c \<or> isLineTerminator c))"
proof -
  have "(\<not> regex_test [AssertStart, Star WhiteSpaceClass, AssertEnd] s)
      = (\<not> (matcher [Star WhiteSpaceClass, AssertEnd] 0 s \<noteq> None))"
    by (simp add: regex_test_anchored)
  also have "\<dots> = (\<not> (\<forall>c \<in> set s. atom_matches WhiteSpaceClass c))"
    by (simp only: matcher_star_to_end)
  finally show ?thesis by (simp add: NotBlank_def)
qed

text \<open>
  \<open>Trimmed\<close> accepts the strings of at least two code units whose first and last code
  units are outside \<^verbatim>\<open>\s\<close> and that hold no line terminator between the two.
\<close>

lemma Trimmed_test_iff:
  "test Trimmed s =
     Inr (2 \<le> length s
      \<and> \<not> (isWhiteSpace (hd s) \<or> isLineTerminator (hd s))
      \<and> \<not> (isWhiteSpace (last s) \<or> isLineTerminator (last s))
      \<and> (\<forall>d \<in> set (butlast (tl s)). \<not> isLineTerminator d))"
proof (cases s)
  case Nil
  then show ?thesis by (simp add: Trimmed_def regex_test_anchored)
next
  case (Cons c cs)
  have "regex_test
          [AssertStart, Atom NotWhiteSpaceClass, LazyStar Dot, Atom NotWhiteSpaceClass, AssertEnd]
          (c # cs) =
          (atom_matches NotWhiteSpaceClass c
           \<and> matcher [LazyStar Dot, Atom NotWhiteSpaceClass, AssertEnd] (Suc 0) cs \<noteq> None)"
    by (simp add: regex_test_anchored)
  also have "\<dots> = (atom_matches NotWhiteSpaceClass c \<and> cs \<noteq> []
                   \<and> (\<forall>d \<in> set (butlast cs). atom_matches Dot d)
                   \<and> atom_matches NotWhiteSpaceClass (last cs))"
    by (simp only: matcher_lazy_then_last)
  finally show ?thesis
    using Cons by (cases cs) (auto simp: Trimmed_def)
qed

lemma Trimmed_rejects_single_code_unit: "length s = 1 \<Longrightarrow> test Trimmed s = Inr False"
  by (simp add: Trimmed_test_iff)

text \<open>
  Claim C4. The claim: \<open>Trimmed.test(s)\<close> is true if and only if \<open>s\<close> has at least two
  characters and its first and its last character are not white space. The code at
  the string of \<open>a\<close>, a line feed and \<open>b\<close>: the string has three code units, its first and
  its last are not white space, and the test returns false, as \<^verbatim>\<open>.\<close> does not match the
  line feed.
\<close>

theorem Trimmed_rejects_interior_line_terminator:
  "test Trimmed [0x61, 0x0A, 0x62] = Inr False
   \<and> 2 \<le> length [0x61, 0x0A, 0x62 :: 16 word]
   \<and> \<not> (isWhiteSpace (hd [0x61, 0x0A, 0x62]) \<or> isLineTerminator (hd [0x61, 0x0A, 0x62]))
   \<and> \<not> (isWhiteSpace (last [0x61, 0x0A, 0x62]) \<or> isLineTerminator (last [0x61, 0x0A, 0x62]))"
  by (simp add: Trimmed_def regex_test_def isWhiteSpace_def isLineTerminator_def)

subsection \<open>Case conversion\<close>

lemma UTF16EncodeCodePoint_pair:
  assumes "isLeadingSurrogate c" and "isTrailingSurrogate d"
  shows "UTF16EncodeCodePoint (0x10000 + (unat c - 0xD800) * 0x400 + (unat d - 0xDC00)) = [c, d]"
proof -
  define h where "h = unat c - 0xD800"
  define l where "l = unat d - 0xDC00"
  have c: "unat c = h + 0xD800" and d: "unat d = l + 0xDC00" and l: "l < 0x400"
    using assms by (auto simp: isLeadingSurrogate_def isTrailingSurrogate_def h_def l_def)
  have "(h * 0x400 + l) div 0x400 = h" and "(h * 0x400 + l) mod 0x400 = l"
    using l by simp_all
  moreover have "of_nat (h + 0xD800) = c" and "of_nat (l + 0xDC00) = d"
    using c [symmetric] d [symmetric] by simp_all
  ultimately show ?thesis
    unfolding UTF16EncodeCodePoint_def h_def [symmetric] l_def [symmetric]
    by simp
qed

lemma UTF16EncodeCodePoint_unit: "UTF16EncodeCodePoint (unat (c :: 16 word)) = [c]"
proof -
  have "unat c < 2 ^ 16"
    using unsigned_less [of c] by simp
  then show ?thesis
    by (simp add: UTF16EncodeCodePoint_def)
qed

text \<open>Reading a string as code points and writing them back gives the string.\<close>

lemma CodePointsToString_StringToCodePoints: "CodePointsToString (StringToCodePoints s) = s"
proof (induction s rule: StringToCodePoints.induct)
  case 1
  then show ?case by (simp add: CodePointsToString_def)
next
  case (2 c)
  then show ?case by (simp add: CodePointsToString_def UTF16EncodeCodePoint_unit)
next
  case (3 c d cs)
  then show ?case
    by (auto simp: CodePointsToString_def UTF16EncodeCodePoint_unit UTF16EncodeCodePoint_pair)
qed

lemma convertCase_fixed:
  "\<forall>c \<in> set cps. \<forall>prev rest. m prev c rest = [c] \<Longrightarrow> convertCase m prev cps = cps"
  by (induction cps arbitrary: prev) auto

text \<open>
  Claim C9. The scenarios of the example predicates: \<open>NotEmpty\<close> rejects the empty
  string and accepts \<open>x\<close>; \<open>NotBlank\<close> rejects the empty string and the string of three
  spaces and accepts \<open>a\<close> between two spaces; \<open>LowerCase\<close> accepts \<open>abc\<close> and rejects \<open>Abc\<close>,
  with every case table that is the Unicode one on the Basic Latin block.
\<close>

theorem example_predicate_scenarios:
  assumes "lowerOnBasicLatin lower"
  shows "test NotEmpty (js []) = Inr False \<and> test NotEmpty (js ''x'') = Inr True
     \<and> test NotBlank (js []) = Inr False \<and> test NotBlank (js ''   '') = Inr False
     \<and> test NotBlank (js '' a '') = Inr True
     \<and> test (LowerCase lower) (js ''abc'') = Inr True
     \<and> test (LowerCase lower) (js ''Abc'') = Inr False"
proof -
  have lower: "lower prev c rest = [basicLatinLower c]" if "c < 0x80" for prev c rest
    using assms that by (simp add: lowerOnBasicLatin_def)
  have "test NotEmpty (js []) = Inr False" and "test NotEmpty (js ''x'') = Inr True"
    by (simp_all add: NotEmpty_def js_def)
  moreover have "test NotBlank (js []) = Inr False" and "test NotBlank (js ''   '') = Inr False"
    and "test NotBlank (js '' a '') = Inr True"
    by (simp_all add: NotBlank_def regex_test_def isWhiteSpace_def isLineTerminator_def js_def)
  moreover have "test (LowerCase lower) (js ''abc'') = Inr True"
    by (simp add: LowerCase_def toLowerCase_def CodePointsToString_def UTF16EncodeCodePoint_def
          lower basicLatinLower_def isLeadingSurrogate_def isTrailingSurrogate_def js_def)
  moreover have "test (LowerCase lower) (js ''Abc'') = Inr False"
    by (simp add: LowerCase_def toLowerCase_def CodePointsToString_def UTF16EncodeCodePoint_def
          lower basicLatinLower_def isLeadingSurrogate_def isTrailingSurrogate_def js_def)
  ultimately show ?thesis by simp
qed

theorem example_predicate_scenarios_witness:
  "lowerOnBasicLatin basicLatinLowerCasing
   \<and> test (LowerCase basicLatinLowerCasing) (js ''abc'')
       = Inr True
   \<and> test (LowerCase basicLatinLowerCasing) (js ''Abc'')
       = Inr False
   \<and> test (NotBlank) (js ''   '') = Inr False"
  using example_predicate_scenarios [of basicLatinLowerCasing]
  by (simp add: lowerOnBasicLatin_def basicLatinLowerCasing_def)

text \<open>
  Claim C10. A string all of whose code points are without case distinction, as the
  empty string is, passes both \<open>LowerCase.test\<close> and \<open>UpperCase.test\<close>, and so passes the
  check with both predicates. The string \<open>123\<close> is one, with every pair of case tables
  that are the Unicode ones on the Basic Latin block.
\<close>

theorem caseless_string_passes_LowerCase_and_UpperCase:
  "((\<forall>c \<in> set (StringToCodePoints s). caseless lower upper c) \<longrightarrow>
      test (LowerCase lower) s = Inr True \<and> test (UpperCase upper) s = Inr True
      \<and> fst (guardImpl s [named_class ''LowerCase'' (LowerCase lower),
                           named_class ''UpperCase'' (UpperCase upper)]) = Inr True)
   \<and> test (LowerCase lower) [] = Inr True \<and> test (UpperCase upper) [] = Inr True
   \<and> (lowerOnBasicLatin lower \<and> upperOnBasicLatin upper \<longrightarrow>
        test (LowerCase lower) (js ''123'') = Inr True
        \<and> test (UpperCase upper) (js ''123'') = Inr True)"
proof -
  have general: "test (LowerCase lower) t = Inr True \<and> test (UpperCase upper) t = Inr True"
    if "\<forall>c \<in> set (StringToCodePoints t). caseless lower upper c" for t
  proof -
    have "convertCase lower [] (StringToCodePoints t) = StringToCodePoints t"
      and "convertCase upper [] (StringToCodePoints t) = StringToCodePoints t"
      using that by (simp_all add: caseless_def convertCase_fixed)
    then show ?thesis
      by (simp add: LowerCase_def UpperCase_def toLowerCase_def toUpperCase_def
            CodePointsToString_StringToCodePoints)
  qed
  have "test (LowerCase lower) s = Inr True \<and> test (UpperCase upper) s = Inr True
        \<and> fst (guardImpl s [named_class ''LowerCase'' (LowerCase lower),
                             named_class ''UpperCase'' (UpperCase upper)]) = Inr True"
    if "\<forall>c \<in> set (StringToCodePoints s). caseless lower upper c"
    using general [OF that] by (simp add: named_class_def instantiate_and_test_def)
  moreover have "test (LowerCase lower) [] = Inr True \<and> test (UpperCase upper) [] = Inr True"
    by (rule general) simp
  moreover have "test (LowerCase lower) (js ''123'') = Inr True
      \<and> test (UpperCase upper) (js ''123'') = Inr True"
    if "lowerOnBasicLatin lower \<and> upperOnBasicLatin upper"
  proof (rule general)
    show "\<forall>c \<in> set (StringToCodePoints (js ''123'')). caseless lower upper c"
      using that
      by (simp add: js_def isLeadingSurrogate_def isTrailingSurrogate_def caseless_def
            lowerOnBasicLatin_def upperOnBasicLatin_def basicLatinLower_def basicLatinUpper_def)
  qed
  ultimately show ?thesis by blast
qed

theorem caseless_string_passes_LowerCase_and_UpperCase_witness:
  "caseless basicLatinLowerCasing basicLatinUpperCasing 0x31
   \<and> caseless basicLatinLowerCasing basicLatinUpperCasing 0x32
   \<and> caseless basicLatinLowerCasing basicLatinUpperCasing 0x33
   \<and> StringToCodePoints (js ''123'') = [0x31, 0x32, 0x33]
   \<and> lowerOnBasicLatin basicLatinLowerCasing \<and> upperOnBasicLatin basicLatinUpperCasing
   \<and> test (LowerCase basicLatinLowerCasing) (js ''123'')
       = Inr True
   \<and> test (UpperCase basicLatinUpperCasing) (js ''123'')
       = Inr True"
  using caseless_string_passes_LowerCase_and_UpperCase
          [where s = "js ''123''" and lower = basicLatinLowerCasing
             and upper = basicLatinUpperCasing]
  by (simp add: caseless_def lowerOnBasicLatin_def upperOnBasicLatin_def
        basicLatinLowerCasing_def basicLatinUpperCasing_def basicLatinLower_def
        basicLatinUpper_def isLeadingSurrogate_def isTrailingSurrogate_def js_def)

end
